theory Spec2Isabelle
  imports Complex_Main "HOL-Library.Log_Nat"
begin

section \<open>Values, series and frames\<close>

text \<open>
  The program (\<^verbatim>\<open>Markowitz_2.py\<close>) works on pandas frames of floating-point numbers.
  A cell is modelled as \<open>real option\<close>: \<open>Some x\<close> is the number \<open>x\<close>, \<open>None\<close> is NaN
  (a missing value). Arithmetic on numbers is exact real arithmetic: rounding and
  overflow of IEEE doubles are not modelled here, and there are no infinities. The only
  division by zero that the weight computation can reach has a zero numerator
  (\<open>0 / 0\<close>, NaN in pandas), see \<open>cdiv\<close>. Statements that rounding could decide are made
  with a margin or as equations between the program's own operations; the rounding of
  doubles itself is modelled in a section of its own, for the inputs where it decides.
\<close>

type_synonym cell = "real option"

text \<open>Element-wise arithmetic of pandas: NaN in, NaN out.\<close>

definition lift2 :: "(real \<Rightarrow> real \<Rightarrow> real) \<Rightarrow> cell \<Rightarrow> cell \<Rightarrow> cell" where
  "lift2 f a b =
     (case a of None \<Rightarrow> None
      | Some x \<Rightarrow> (case b of None \<Rightarrow> None | Some y \<Rightarrow> Some (f x y)))"

text \<open>
  Division of pandas values: no exception is raised, \<open>0 / 0\<close> is NaN. (\<open>x / 0\<close> with
  \<open>x \<noteq> 0\<close> is an infinity in pandas; the model has none and the weight computation
  never divides a non-zero number by zero: its divisors are floored volatilities, sums
  of positive numbers, or sums of non-negative scores whose numerators vanish with
  them.)
\<close>

definition cdiv :: "cell \<Rightarrow> cell \<Rightarrow> cell" where
  "cdiv a b =
     (case a of None \<Rightarrow> None
      | Some x \<Rightarrow> (case b of None \<Rightarrow> None
                   | Some y \<Rightarrow> if y = 0 then None else Some (x / y)))"

text \<open>The values of a series that are not NaN (reductions skip NaN).\<close>

definition present :: "cell list \<Rightarrow> real list" where
  "present cs = map the (filter (\<lambda>c. c \<noteq> None) cs)"

text \<open>\<^verbatim>\<open>Series.sum()\<close>: NaN is skipped, the empty sum is 0.\<close>

definition sum_skipna :: "cell list \<Rightarrow> real" where
  "sum_skipna cs = sum_list (present cs)"

text \<open>\<^verbatim>\<open>Series.min()\<close> and \<^verbatim>\<open>Series.max()\<close>: NaN is skipped, NaN when nothing is left.\<close>

definition min_skipna :: "cell list \<Rightarrow> cell" where
  "min_skipna cs = (case present cs of [] \<Rightarrow> None | x # xs \<Rightarrow> Some (fold min xs x))"

definition max_skipna :: "cell list \<Rightarrow> cell" where
  "max_skipna cs = (case present cs of [] \<Rightarrow> None | x # xs \<Rightarrow> Some (fold max xs x))"

text \<open>\<^verbatim>\<open>mean()\<close> of a column without NaN: NaN for an empty column.\<close>

definition mean_col :: "real list \<Rightarrow> cell" where
  "mean_col xs = (if xs = [] then None else Some (sum_list xs / real (length xs)))"

text \<open>
  \<^verbatim>\<open>std()\<close> of a column without NaN: the sample standard deviation (one degree of
  freedom removed), NaN when the column has fewer than two entries.
\<close>

definition std_col :: "real list \<Rightarrow> cell" where
  "std_col xs =
     (if length xs < 2 then None
      else (let m = sum_list xs / real (length xs)
            in Some (sqrt (sum_list (map (\<lambda>x. (x - m)\<^sup>2) xs) / real (length xs - 1)))))"

text \<open>
  A frame: column labels, date labels (numbered days) and the rows of cells, one row
  per date and one cell per column. Column labels are distinct and so are the dates, as
  in the tables the program downloads; a row is addressed by its position and a cell by
  the position of its column.
\<close>

record 'a frame =
  columns :: "string list"
  index :: "nat list"
  vals :: "'a list list"

text \<open>\<^verbatim>\<open>dropna()\<close>: the rows (with their dates) that have no NaN.\<close>

definition dropna :: "cell frame \<Rightarrow> real frame" where
  "dropna f =
     (let keep = filter (\<lambda>dr. list_all (\<lambda>c. c \<noteq> None) (snd dr)) (zip (index f) (vals f))
      in \<lparr>columns = columns f, index = map fst keep, vals = map (\<lambda>dr. map the (snd dr)) keep\<rparr>)"

text \<open>\<^verbatim>\<open>ffill()\<close>: every NaN takes the last value above it in its column, if there is one.\<close>

definition fill_row :: "cell list \<Rightarrow> cell list \<Rightarrow> cell list" where
  "fill_row prev cur = map (\<lambda>pc. case snd pc of None \<Rightarrow> fst pc | Some v \<Rightarrow> Some v) (zip prev cur)"

fun ffill_from :: "cell list \<Rightarrow> cell list list \<Rightarrow> cell list list" where
  "ffill_from prev [] = []"
| "ffill_from prev (r # rs) = fill_row prev r # ffill_from (fill_row prev r) rs"

definition ffill :: "cell list list \<Rightarrow> cell list list" where
  "ffill t = (case t of [] \<Rightarrow> [] | r # rs \<Rightarrow> r # ffill_from r rs)"

text \<open>\<^verbatim>\<open>fillna(0)\<close>.\<close>

definition fillna0 :: "cell list list \<Rightarrow> real list list" where
  "fillna0 t = map (map (\<lambda>c. case c of None \<Rightarrow> 0 | Some v \<Rightarrow> v)) t"

text \<open>
  \<^verbatim>\<open>pct_change()\<close>: missing prices are first filled forward, then every cell is the
  ratio to the cell above it minus one; the first row is NaN. Prices are positive, so
  the ratio never divides by zero.
\<close>

definition pct_row :: "cell list \<Rightarrow> cell list \<Rightarrow> cell list" where
  "pct_row prev cur = map (\<lambda>pc. lift2 (-) (cdiv (snd pc) (fst pc)) (Some 1)) (zip prev cur)"

definition pct_change :: "cell list list \<Rightarrow> cell list list" where
  "pct_change t =
     (case ffill t of [] \<Rightarrow> []
      | r # rs \<Rightarrow> map (\<lambda>c. None) r # map (\<lambda>pc. pct_row (fst pc) (snd pc)) (zip (r # rs) rs))"

text \<open>\<^verbatim>\<open>iloc[a:b]\<close> on rows, for \<open>0 \<le> a\<close>.\<close>

definition iloc :: "nat \<Rightarrow> nat \<Rightarrow> 'a list \<Rightarrow> 'a list" where
  "iloc a b xs = take (b - a) (drop a xs)"

text \<open>The cells of a row in the columns other than \<open>ex\<close>, and those in the column \<open>ex\<close>.\<close>

definition select_assets :: "string list \<Rightarrow> string \<Rightarrow> 'a list \<Rightarrow> 'a list" where
  "select_assets cols ex r = map snd (filter (\<lambda>cv. fst cv \<noteq> ex) (zip cols r))"

definition excluded_cells :: "string list \<Rightarrow> string \<Rightarrow> 'a list \<Rightarrow> 'a list" where
  "excluded_cells cols ex r = map snd (filter (\<lambda>cv. fst cv = ex) (zip cols r))"

section \<open>The strategy: \<^verbatim>\<open>MyPortfolio\<close>\<close>

datatype py_error = ZeroDivisionError

text \<open>
  The object's attributes. \<open>portfolio_weights\<close> and \<open>portfolio_returns\<close> are absent
  (\<open>None\<close>) until they are computed. The window lengths are natural numbers.
\<close>

record MyPortfolio =
  price :: "real frame"
  returns :: "real frame"
  exclude :: string
  lookback :: nat
  momentum_window :: nat
  momentum_weight :: real
  portfolio_weights :: "real frame option"
  portfolio_returns :: "real frame option"

text \<open>
  \<^verbatim>\<open>__init__\<close>: the stored prices are the rows of the argument without NaN; the returns
  are computed from the argument itself.
\<close>

definition init :: "cell frame \<Rightarrow> string \<Rightarrow> nat \<Rightarrow> nat \<Rightarrow> real \<Rightarrow> MyPortfolio" where
  "init p ex lb mw w =
     \<lparr>price = dropna p,
      returns = \<lparr>columns = columns p, index = index p, vals = fillna0 (pct_change (vals p))\<rparr>,
      exclude = ex, lookback = lb, momentum_window = mw, momentum_weight = w,
      portfolio_weights = None, portfolio_returns = None\<rparr>"

text \<open>\<^verbatim>\<open>assets = self.price.columns[self.price.columns != self.exclude]\<close>\<close>

definition assets_of :: "MyPortfolio \<Rightarrow> string list" where
  "assets_of pf = filter (\<lambda>c. c \<noteq> exclude pf) (columns (price pf))"

text \<open>
  \<^verbatim>\<open>self.returns[assets].iloc[a:b]\<close>, column by column: one list of returns per asset,
  each with one entry per row of the window. The returns have the columns of the
  prices, so an asset's column is found at the asset's position.
\<close>

definition window_columns :: "MyPortfolio \<Rightarrow> nat \<Rightarrow> nat \<Rightarrow> real list list" where
  "window_columns pf a b =
     (let win = map (select_assets (columns (price pf)) (exclude pf)) (iloc a b (vals (returns pf)))
      in map (\<lambda>j. map (\<lambda>r. r ! j) win) [0..<length (assets_of pf)])"

text \<open>Lines 70 to 73, from the trailing volatilities: floor, invert, normalise.\<close>

definition volatilities_at :: "MyPortfolio \<Rightarrow> nat \<Rightarrow> cell list" where
  "volatilities_at pf i =
     map (\<lambda>c. lift2 (*) (std_col c) (Some (sqrt 252))) (window_columns pf (i - lookback pf) i)"

definition rp_weights_of :: "cell list \<Rightarrow> cell list" where
  "rp_weights_of volatilities =
     (let clipped = map (map_option (max (1 / 1000000))) volatilities;
          inv_vol = map (cdiv (Some 1)) clipped
      in map (\<lambda>x. cdiv x (Some (sum_skipna inv_vol))) inv_vol)"

text \<open>Lines 75 to 79, from the trailing mean daily returns: annualise, min-max, normalise.\<close>

definition means_at :: "MyPortfolio \<Rightarrow> nat \<Rightarrow> cell list" where
  "means_at pf i = map mean_col (window_columns pf (i - momentum_window pf) i)"

definition momentum_scores_of :: "cell list \<Rightarrow> cell list" where
  "momentum_scores_of means =
     (let ms = map (\<lambda>m. lift2 (*) m (Some 252)) means;
          lo = min_skipna ms;
          hi = max_skipna ms
      in map (\<lambda>m. cdiv (lift2 (-) m lo) (lift2 (+) (lift2 (-) hi lo) (Some (1 / 1000000)))) ms)"

definition momentum_weights_of :: "cell list \<Rightarrow> cell list" where
  "momentum_weights_of means =
     (let scores = momentum_scores_of means
      in map (\<lambda>s. cdiv s (Some (sum_skipna scores))) scores)"

text \<open>Lines 81 and 82: the blend, normalised again.\<close>

definition blend :: "real \<Rightarrow> cell list \<Rightarrow> cell list \<Rightarrow> cell list" where
  "blend w rp mw =
     (let weights = map (\<lambda>rm. lift2 (+) (lift2 (*) (Some (1 - w)) (fst rm))
                                        (lift2 (*) (Some w) (snd rm))) (zip rp mw)
      in map (\<lambda>x. cdiv x (Some (sum_skipna weights))) weights)"

text \<open>Line 82 alone: a series divided by its own sum.\<close>

definition renormalise :: "cell list \<Rightarrow> cell list" where
  "renormalise ws = map (\<lambda>x. cdiv x (Some (sum_skipna ws))) ws"

definition steady_weights :: "MyPortfolio \<Rightarrow> nat \<Rightarrow> cell list" where
  "steady_weights pf i =
     blend (momentum_weight pf) (rp_weights_of (volatilities_at pf i))
                                (momentum_weights_of (means_at pf i))"

text \<open>
  The two assignments \<^verbatim>\<open>.loc[date, assets] = weights\<close> and \<^verbatim>\<open>.loc[date, exclude] = 0\<close>
  make the row of a date: the columns other than the excluded one take the weights in
  order, the excluded column takes 0.
\<close>

fun place :: "string list \<Rightarrow> string \<Rightarrow> cell list \<Rightarrow> cell list" where
  "place [] ex ws = []"
| "place (c # cs) ex ws =
     (if c = ex then Some 0 # place cs ex ws
      else (case ws of [] \<Rightarrow> None # place cs ex []
            | v # vs \<Rightarrow> v # place cs ex vs))"

text \<open>
  The columns of the weight table: those of the prices, and the excluded label too when
  the prices have no such column (the first assignment to it then adds the column).
\<close>

definition weight_columns :: "MyPortfolio \<Rightarrow> string list" where
  "weight_columns pf =
     (if exclude pf \<in> set (columns (price pf)) \<or> vals (price pf) = [] then columns (price pf)
      else columns (price pf) @ [exclude pf])"

text \<open>
  The first loop (warm-up) and the second loop (steady state), on the rows of the table:
  \<^verbatim>\<open>.loc[self.price.index[i], ...]\<close> is the row at position \<open>i\<close>, the dates being distinct.
\<close>

definition warm_up_loop :: "MyPortfolio \<Rightarrow> cell list list \<Rightarrow> cell list list" where
  "warm_up_loop pf t =
     fold (\<lambda>i t. if i < length (vals (price pf))
                 then t[i := place (weight_columns pf) (exclude pf)
                               (replicate (length (assets_of pf)) (Some (1 / real (length (assets_of pf)))))]
                 else t)
          [0..<max (lookback pf) (momentum_window pf)] t"

definition steady_loop :: "MyPortfolio \<Rightarrow> cell list list \<Rightarrow> cell list list" where
  "steady_loop pf t =
     fold (\<lambda>i t. t[i := place (weight_columns pf) (exclude pf) (steady_weights pf i)])
          [max (lookback pf) (momentum_window pf)..<length (vals (price pf))] t"

text \<open>
  \<^verbatim>\<open>calculate_weights\<close>. With no asset left, \<^verbatim>\<open>1.0 / num_assets\<close> raises. The table
  starts with NaN everywhere and has one row per date of the stored prices.
\<close>

definition weight_table :: "MyPortfolio \<Rightarrow> real list list" where
  "weight_table pf =
     fillna0 (ffill (steady_loop pf (warm_up_loop pf
        (replicate (length (vals (price pf))) (replicate (length (weight_columns pf)) None)))))"

definition calculate_weights :: "MyPortfolio \<Rightarrow> py_error + MyPortfolio" where
  "calculate_weights pf =
     (if length (assets_of pf) = 0 then Inl ZeroDivisionError
      else Inr (pf\<lparr>portfolio_weights :=
                     Some \<lparr>columns = weight_columns pf, index = index (price pf),
                           vals = weight_table pf\<rparr>\<rparr>))"

text \<open>
  \<^verbatim>\<open>calculate_portfolio_returns\<close>. The product of returns and weights is aligned on the
  date labels: a date of the returns without a row in the weight table gives NaN
  products, and the row sum skips them. Within a row the asset columns of both frames
  are in the same order.
\<close>

definition portfolio_column :: "MyPortfolio \<Rightarrow> real frame \<Rightarrow> real list" where
  "portfolio_column pf w =
     map (\<lambda>dr. case map_of (zip (index w) (vals w)) (fst dr) of
                 None \<Rightarrow> 0
               | Some wr \<Rightarrow> sum_list (map (\<lambda>xy. fst xy * snd xy)
                              (zip (select_assets (columns (returns pf)) (exclude pf) (snd dr))
                                   (select_assets (columns w) (exclude pf) wr))))
         (zip (index (returns pf)) (vals (returns pf)))"

text \<open>\<^verbatim>\<open>frame[c] = xs\<close>: replace the column labelled \<open>c\<close>, or add it at the end.\<close>

definition set_column :: "string \<Rightarrow> real list \<Rightarrow> real frame \<Rightarrow> real frame" where
  "set_column c xs f =
     (if c \<in> set (columns f)
      then f\<lparr>vals := map (\<lambda>rx. map (\<lambda>cv. if fst cv = c then snd rx else snd cv)
                                   (zip (columns f) (fst rx))) (zip (vals f) xs)\<rparr>
      else f\<lparr>columns := columns f @ [c], vals := map (\<lambda>rx. fst rx @ [snd rx]) (zip (vals f) xs)\<rparr>)"

text \<open>\<^verbatim>\<open>frame[c]\<close> at the row in position \<open>i\<close>: the cells of that row in the columns labelled \<open>c\<close>.\<close>

definition loc_cells :: "string \<Rightarrow> 'a frame \<Rightarrow> nat \<Rightarrow> 'a list" where
  "loc_cells c f i = map snd (filter (\<lambda>cv. fst cv = c) (zip (columns f) (vals f ! i)))"

definition calculate_portfolio_returns :: "MyPortfolio \<Rightarrow> py_error + MyPortfolio" where
  "calculate_portfolio_returns pf =
     (case (case portfolio_weights pf of None \<Rightarrow> calculate_weights pf | Some w \<Rightarrow> Inr pf) of
        Inl e \<Rightarrow> Inl e
      | Inr pf' \<Rightarrow>
          (case portfolio_weights pf' of
             None \<Rightarrow> Inr pf'
           | Some w \<Rightarrow> Inr (pf'\<lparr>portfolio_returns :=
                              Some (set_column ''Portfolio'' (portfolio_column pf' w) (returns pf'))\<rparr>)))"

definition get_results :: "MyPortfolio \<Rightarrow> py_error + (real frame option \<times> real frame option)" where
  "get_results pf =
     (case (case portfolio_returns pf of None \<Rightarrow> calculate_portfolio_returns pf | Some r \<Rightarrow> Inr pf) of
        Inl e \<Rightarrow> Inl e
      | Inr pf' \<Rightarrow> Inr (portfolio_weights pf', portfolio_returns pf'))"

section \<open>The grader: \<^verbatim>\<open>AssignmentJudge\<close>\<close>

text \<open>
  The judge keeps the results of two strategies. A result of a method is its return
  value together with the lines it prints.
\<close>

record AssignmentJudge =
  mp :: "real frame \<times> real frame"
  Bmp :: "real frame \<times> real frame"

definition check_portfolio_position :: "real frame \<Rightarrow> bool \<times> string list" where
  "check_portfolio_position w =
     (if list_all (\<lambda>r. sum_list r \<le> 101 / 100) (vals w) then (True, [])
      else (False, [''Portfolio Position Exceeds 1. No Leverage.'']))"

text \<open>A comparison \<^verbatim>\<open>a > b\<close> of two floating-point values: false when one is NaN.\<close>

definition gt :: "cell \<Rightarrow> cell \<Rightarrow> bool" where
  "gt a b = (case a of None \<Rightarrow> False | Some x \<Rightarrow> (case b of None \<Rightarrow> False | Some y \<Rightarrow> y < x))"

text \<open>
  \<^verbatim>\<open>report_metrics\<close> computes Sharpe ratios with a library; it is a parameter here,
  \<open>rm\<close>, that gives the pair of ratios (of the benchmark, entry 0, and of the
  strategy, entry 1). The price tables \<^verbatim>\<open>df\<close> and \<^verbatim>\<open>Bdf\<close> of the module are parameters
  too.
\<close>

definition check_sharp_ratio_greater_than_one ::
  "(cell frame \<Rightarrow> real frame \<times> real frame \<Rightarrow> cell \<times> cell) \<Rightarrow> cell frame \<Rightarrow> AssignmentJudge
     \<Rightarrow> nat \<times> string list" where
  "check_sharp_ratio_greater_than_one rm df j =
     (let pos = check_portfolio_position (fst (mp j))
      in if \<not> fst pos then (0, snd pos)
         else if gt (snd (rm df (mp j))) (Some 1)
              then (15, snd pos @ [''Problem 4.1 Success - Get 15 points''])
              else (0, snd pos @ [''Problem 4.1 Fail'']))"

definition check_sharp_ratio_greater_than_spy ::
  "(cell frame \<Rightarrow> real frame \<times> real frame \<Rightarrow> cell \<times> cell) \<Rightarrow> cell frame \<Rightarrow> AssignmentJudge
     \<Rightarrow> nat \<times> string list" where
  "check_sharp_ratio_greater_than_spy rm Bdf j =
     (let pos = check_portfolio_position (fst (mp j))
      in if \<not> fst pos then (0, snd pos)
         else if gt (snd (rm Bdf (Bmp j))) (fst (rm Bdf (Bmp j)))
              then (15, snd pos @ [''Problem 4.2 Success - Get 15 points''])
              else (0, snd pos @ [''Problem 4.2 Fail'']))"

section \<open>Double precision\<close>

text \<open>
  The program computes in binary64. A double is modelled by the rational number it
  stands for, and every operation of the program is the exact operation followed by
  rounding to the nearest number with 53 significant bits, ties to the even one. The
  exponent range is not limited (no overflow and no underflow), and there is no NaN
  here: this part of the model is used on finite, positive values only.
\<close>

definition round_half_even :: "rat \<Rightarrow> int" where
  "round_half_even x =
     (let f = \<lfloor>x\<rfloor>; d = x - of_int f
      in if d < 1 / 2 then f else if 1 / 2 < d then f + 1 else if even f then f else f + 1)"

text \<open>For \<open>x > 0\<close>, the \<open>e\<close> with \<open>2 ^ e \<le> x < 2 ^ (e + 1)\<close>.\<close>

definition exponent_of :: "rat \<Rightarrow> int" where
  "exponent_of x =
     (let pq = quotient_of x; d = bitlen (fst pq) - bitlen (snd pq)
      in if 2 powi d \<le> x then d else d - 1)"

definition round_double :: "rat \<Rightarrow> rat" where
  "round_double x =
     (if x = 0 then 0
      else (let s = 2 powi (exponent_of \<bar>x\<bar> - 52) in of_int (round_half_even (x / s)) * s))"

text \<open>\<^verbatim>\<open>Series.sum()\<close> in doubles, one addition after the other from the left.\<close>

definition sum_double :: "rat list \<Rightarrow> rat" where
  "sum_double xs = foldl (\<lambda>acc x. round_double (acc + x)) 0 xs"


text \<open>Lines 71 to 73 in doubles, on volatilities that are numbers.\<close>

definition rp_weights_double :: "rat list \<Rightarrow> rat list" where
  "rp_weights_double volatilities =
     (let clipped = map (max (round_double (1 / 1000000))) volatilities;
          inv_vol = map (\<lambda>v. round_double (1 / v)) clipped;
          s = sum_double inv_vol
      in map (\<lambda>x. round_double (x / s)) inv_vol)"

text \<open>Line 82 in doubles, on weights that are numbers.\<close>

definition renormalise_double :: "rat list \<Rightarrow> rat list" where
  "renormalise_double ws = map (\<lambda>x. round_double (x / sum_double ws)) ws"

section \<open>Notions used in the proofs\<close>

text \<open>The weights that the two loops write for the date at position \<open>i\<close>.\<close>

definition row_weights :: "MyPortfolio \<Rightarrow> nat \<Rightarrow> cell list" where
  "row_weights pf i =
     (if i < max (lookback pf) (momentum_window pf)
      then replicate (length (assets_of pf)) (Some (1 / real (length (assets_of pf))))
      else steady_weights pf i)"

text \<open>
  A vector of weights is blank when every entry is NaN, and full when no entry is NaN
  and the entries sum to 1.
\<close>

definition blank :: "cell list \<Rightarrow> bool" where
  "blank ws = list_all (\<lambda>c. c = None) ws"

definition full :: "cell list \<Rightarrow> bool" where
  "full ws = (list_all (\<lambda>c. c \<noteq> None) ws \<and> sum_skipna ws = 1)"

text \<open>The value of a cell after \<^verbatim>\<open>fillna(0)\<close>.\<close>

definition nz :: "cell \<Rightarrow> real" where
  "nz c = (case c of None \<Rightarrow> 0 | Some v \<Rightarrow> v)"

section \<open>Example inputs\<close>


definition jump_prices :: "cell frame" where
  "jump_prices = \<lparr>columns = [''SPY'', ''XLB'', ''XLC''], index = [0, 1, 2],
     vals = [[Some 1, Some 1, Some 1], [Some 1, Some 2, Some 1], [Some 1, Some 2, Some 1]]\<rparr>"

definition jump_pf :: MyPortfolio where
  "jump_pf = init jump_prices ''SPY'' 1 1 1"

definition trend_prices :: "cell frame" where
  "trend_prices = \<lparr>columns = [''SPY'', ''XLB'', ''XLC''], index = [0, 1, 2, 3],
     vals = [[Some 1, Some 100, Some 100], [Some 1, Some 110, Some 120],
             [Some 1, Some 121, Some 144], [Some 1, Some 121, Some 144]]\<rparr>"

definition gap_prices :: "cell frame" where
  "gap_prices = \<lparr>columns = [''SPY'', ''XLC''], index = [0, 1, 2],
     vals = [[Some 1, None], [Some 1, Some 2], [Some 1, Some 3]]\<rparr>"

definition trend_pf :: "real \<Rightarrow> MyPortfolio" where
  "trend_pf w = init trend_prices ''SPY'' 2 1 w"


definition gap_pf :: MyPortfolio where
  "gap_pf = init gap_prices ''SPY'' 50 20 (1 / 2)"

definition tie_prices :: "cell frame" where
  "tie_prices = \<lparr>columns = [''SPY'', ''XLB'', ''XLC''], index = [0, 1, 2, 3],
     vals = [[Some 1, Some 1, Some 1024], [Some 1, Some 2, Some 1280],
             [Some 1, Some 1, Some 1600], [Some 1, Some 1, Some 1600]]\<rparr>"

definition tie_pf :: MyPortfolio where
  "tie_pf = init tie_prices ''SPY'' 3 2 (1 / 2)"

section \<open>Facts about the weight computation\<close>

subsection \<open>Rows and loops\<close>

lemma length_place: "length (place cs ex ws) = length cs"
  by (induction cs ex ws rule: place.induct) (auto split: list.splits)

lemma select_assets_Cons:
  "select_assets (c # cs) ex (x # xs) = (if c = ex then select_assets cs ex xs else x # select_assets cs ex xs)"
  by (simp add: select_assets_def)

lemma excluded_cells_Cons:
  "excluded_cells (c # cs) ex (x # xs) = (if c = ex then x # excluded_cells cs ex xs else excluded_cells cs ex xs)"
  by (simp add: excluded_cells_def)

lemma select_assets_Nil: "select_assets [] ex xs = []" "select_assets cs ex [] = []"
  by (simp_all add: select_assets_def)

lemma excluded_cells_Nil: "excluded_cells [] ex xs = []" "excluded_cells cs ex [] = []"
  by (simp_all add: excluded_cells_def)

lemma select_assets_map_place:
  "length ws = length (filter (\<lambda>c. c \<noteq> ex) cs) \<Longrightarrow> select_assets cs ex (map f (place cs ex ws)) = map f ws"
proof (induction cs ex ws rule: place.induct)
  case (1 ex ws)
  then show ?case by (simp add: select_assets_Nil)
next
  case (2 c cs ex ws)
  then show ?case
    by (cases ws) (auto simp: select_assets_Cons split: if_splits)
qed

lemma excluded_cells_map_place:
  "x \<in> set (excluded_cells cs ex (map f (place cs ex ws))) \<Longrightarrow> x = f (Some 0)"
proof (induction cs ex ws rule: place.induct)
  case (1 ex ws)
  then show ?case by (simp add: excluded_cells_Nil)
next
  case (2 c cs ex ws)
  then show ?case
    by (cases ws) (auto simp: excluded_cells_Cons split: if_splits)
qed

lemma fill_row_place:
  "length a = length b \<Longrightarrow> fill_row (place cs ex a) (place cs ex b) = place cs ex (fill_row a b)"
proof (induction cs arbitrary: a b)
  case Nil
  then show ?case by (simp add: fill_row_def)
next
  case (Cons c cs)
  show ?case
  proof (cases a)
    case Nil
    with Cons show ?thesis by (simp add: fill_row_def)
  next
    case (Cons x xs)
    then obtain y ys where b: "b = y # ys" using Cons.prems by (cases b) auto
    have "length xs = length ys" using Cons.prems Cons b by simp
    from Cons.IH[OF this] Cons.IH[of a b] Cons.prems show ?thesis using Cons b
      by (simp add: fill_row_def)
  qed
qed

lemma length_fold_update: "length (fold (\<lambda>k t. t[k := f k]) xs t) = length t"
  by (induction xs arbitrary: t) auto

lemma fold_update_nth:
  "i < length t \<Longrightarrow> fold (\<lambda>k t. t[k := f k]) [a..<b] t ! i = (if a \<le> i \<and> i < b then f i else t ! i)"
proof (induction b)
  case 0
  then show ?case by simp
next
  case (Suc b)
  then show ?case
    by (cases "a \<le> b") (auto simp: nth_list_update less_Suc_eq length_fold_update)
qed

lemma fold_guarded_update:
  "length t = m \<Longrightarrow>
   fold (\<lambda>k t. if k < m then t[k := f k] else t) xs t = fold (\<lambda>k t. t[k := f k]) xs t"
  by (induction xs arbitrary: t) (auto simp: list_update_beyond)

lemma length_window_columns: "length (window_columns pf a b) = length (assets_of pf)"
  by (simp add: window_columns_def Let_def)

lemma length_rp_weights_of: "length (rp_weights_of vs) = length vs"
  by (simp add: rp_weights_of_def Let_def)

lemma length_momentum_scores_of: "length (momentum_scores_of ms) = length ms"
  by (simp add: momentum_scores_of_def Let_def)

lemma length_momentum_weights_of: "length (momentum_weights_of ms) = length ms"
  by (simp add: momentum_weights_of_def Let_def length_momentum_scores_of)

lemma length_blend: "length (blend w a b) = min (length a) (length b)"
  by (simp add: blend_def Let_def)

lemma length_steady_weights: "length (steady_weights pf i) = length (assets_of pf)"
  by (simp add: steady_weights_def length_blend length_rp_weights_of length_momentum_weights_of
      volatilities_at_def means_at_def length_window_columns)

lemma length_row_weights: "length (row_weights pf i) = length (assets_of pf)"
  by (simp add: row_weights_def length_steady_weights)

lemma loops_table:
  "steady_loop pf (warm_up_loop pf
      (replicate (length (vals (price pf))) (replicate (length (weight_columns pf)) None)))
   = map (\<lambda>i. place (weight_columns pf) (exclude pf) (row_weights pf i)) [0..<length (vals (price pf))]"
  (is "?lhs = ?rhs")
proof -
  define K where "K = max (lookback pf) (momentum_window pf)"
  define n where "n = length (vals (price pf))"
  define t0 :: "cell list list" where "t0 = replicate n (replicate (length (weight_columns pf)) None)"
  define f where "f = (\<lambda>i::nat. place (weight_columns pf) (exclude pf)
      (replicate (length (assets_of pf)) (Some (1 / real (length (assets_of pf))))))"
  define g where "g = (\<lambda>i. place (weight_columns pf) (exclude pf) (steady_weights pf i))"
  have w: "warm_up_loop pf t0 = fold (\<lambda>k t. t[k := f k]) [0..<K] t0"
    unfolding warm_up_loop_def K_def[symmetric] n_def[symmetric] f_def
    by (rule fold_guarded_update) (simp add: t0_def)
  have s: "steady_loop pf t = fold (\<lambda>k t. t[k := g k]) [K..<n] t" for t
    by (simp add: steady_loop_def K_def n_def g_def)
  have len: "length (steady_loop pf (warm_up_loop pf t0)) = n"
    unfolding s w by (simp add: length_fold_update t0_def)
  have "steady_loop pf (warm_up_loop pf t0) = map (\<lambda>i. if i < K then f i else g i) [0..<n]"
  proof (rule nth_equalityI)
    show "length (steady_loop pf (warm_up_loop pf t0)) = length (map (\<lambda>i. if i < K then f i else g i) [0..<n])"
      by (simp add: len)
  next
    fix i assume "i < length (steady_loop pf (warm_up_loop pf t0))"
    then have i: "i < n" by (simp add: len)
    have "steady_loop pf (warm_up_loop pf t0) ! i
          = (if K \<le> i \<and> i < n then g i else fold (\<lambda>k t. t[k := f k]) [0..<K] t0 ! i)"
      unfolding s w by (rule fold_update_nth) (simp add: length_fold_update t0_def i)
    also have "fold (\<lambda>k t. t[k := f k]) [0..<K] t0 ! i = (if 0 \<le> i \<and> i < K then f i else t0 ! i)"
      by (rule fold_update_nth) (simp add: t0_def i)
    finally show "steady_loop pf (warm_up_loop pf t0) ! i = map (\<lambda>i. if i < K then f i else g i) [0..<n] ! i"
      using i by auto
  qed
  also have "\<dots> = map (\<lambda>i. place (weight_columns pf) (exclude pf) (row_weights pf i)) [0..<n]"
    by (simp add: row_weights_def f_def g_def K_def)
  finally show ?thesis by (simp add: t0_def n_def)
qed

lemma length_fill_row: "length (fill_row a b) = min (length a) (length b)"
  by (simp add: fill_row_def)

lemma ffill_from_place:
  "length a = m \<Longrightarrow> \<forall>ws\<in>set wss. length ws = m \<Longrightarrow>
   ffill_from (place cs ex a) (map (place cs ex) wss) = map (place cs ex) (ffill_from a wss)"
proof (induction wss arbitrary: a)
  case Nil
  then show ?case by simp
next
  case (Cons ws wss)
  have "length a = length ws" using Cons.prems by simp
  then have "fill_row (place cs ex a) (place cs ex ws) = place cs ex (fill_row a ws)"
    by (rule fill_row_place)
  moreover have "length (fill_row a ws) = m" using Cons.prems by (simp add: length_fill_row)
  ultimately show ?case using Cons.IH[of "fill_row a ws"] Cons.prems by simp
qed

lemma ffill_place:
  "\<forall>ws\<in>set wss. length ws = m \<Longrightarrow>
   ffill (map (place cs ex) wss) = map (place cs ex) (ffill wss)"
  by (cases wss) (simp_all add: ffill_def ffill_from_place)

lemma weight_table_rows:
  "weight_table pf =
     map (\<lambda>ws. map (\<lambda>c. case c of None \<Rightarrow> 0 | Some v \<Rightarrow> v) (place (weight_columns pf) (exclude pf) ws))
         (ffill (map (row_weights pf) [0..<length (vals (price pf))]))"
proof -
  have eq: "map (\<lambda>i. place (weight_columns pf) (exclude pf) (row_weights pf i)) [0..<length (vals (price pf))]
        = map (place (weight_columns pf) (exclude pf)) (map (row_weights pf) [0..<length (vals (price pf))])"
    by simp
  have len: "\<forall>ws\<in>set (map (row_weights pf) [0..<length (vals (price pf))]). length ws = length (assets_of pf)"
    by (simp add: length_row_weights)
  show ?thesis
    unfolding weight_table_def loops_table eq ffill_place[OF len] fillna0_def
    by simp
qed

subsection \<open>Normalising a series\<close>

lemma present_map_Some: "present (map Some rs) = rs"
  by (induction rs) (simp_all add: present_def)

lemma sum_skipna_map_Some: "sum_skipna (map Some rs) = sum_list rs"
  by (simp add: sum_skipna_def present_map_Some)

lemma defined_map_Some: "list_all (\<lambda>c. c \<noteq> None) ws \<Longrightarrow> ws = map Some (map the ws)"
  by (induction ws) auto

lemma sum_list_scaled: "sum_list (map (\<lambda>x. x / c) rs) = sum_list rs / (c::real)"
  by (induction rs) (simp_all add: add_divide_distrib)

lemma normalise_Some:
  "sum_list rs \<noteq> 0 \<Longrightarrow>
   map (\<lambda>x. cdiv x (Some (sum_skipna (map Some rs)))) (map Some rs)
     = map Some (map (\<lambda>x. x / sum_list rs) rs)"
  by (simp add: sum_skipna_map_Some cdiv_def)

lemma normalise_zero:
  "sum_list rs = 0 \<Longrightarrow>
   map (\<lambda>x. cdiv x (Some (sum_skipna (map Some rs)))) (map Some rs) = replicate (length rs) None"
  by (simp add: sum_skipna_map_Some cdiv_def comp_def map_replicate_const)

lemma normalise_blank:
  "blank ws \<Longrightarrow> map (\<lambda>x. cdiv x d) ws = ws"
  by (induction ws) (simp_all add: blank_def cdiv_def)

lemma full_normalised: "sum_list rs \<noteq> 0 \<Longrightarrow> full (map Some (map (\<lambda>x. x / sum_list rs) rs))"
  unfolding full_def sum_skipna_map_Some sum_list_scaled by (simp add: list_all_iff)

lemma blank_replicate: "blank (replicate n None)"
  by (simp add: blank_def list_all_iff)

lemma blank_eq_replicate: "blank ws \<Longrightarrow> ws = replicate (length ws) None"
  by (induction ws) (simp_all add: blank_def)

lemma floor_pos: "0 < max (1 / 1000000) (v::real)"
  by (simp add: less_max_iff_disj)

lemma floor_nonzero: "max (1 / 1000000) (v::real) \<noteq> 0"
  using floor_pos[of v] by simp

lemma sum_list_pos_real:
  "rs \<noteq> [] \<Longrightarrow> \<forall>r\<in>set rs. 0 < (r::real) \<Longrightarrow> 0 < sum_list rs"
  by (induction rs) (auto simp: add_pos_nonneg sum_list_nonneg less_imp_le)

subsection \<open>Risk parity\<close>

lemma rp_weights_of_Some:
  "rp_weights_of (map Some vs) =
     map Some (map (\<lambda>x. x / sum_list (map (\<lambda>v. 1 / max (1 / 1000000) v) vs))
                   (map (\<lambda>v. 1 / max (1 / 1000000) v) vs))"
proof (cases "vs = []")
  case True
  then show ?thesis by (simp add: rp_weights_of_def)
next
  case False
  define inv where "inv = map (\<lambda>v. 1 / max (1 / 1000000) v) vs"
  have pos: "\<forall>r\<in>set inv. 0 < r" by (auto simp: inv_def floor_pos)
  have ne: "inv \<noteq> []" using False by (simp add: inv_def)
  have s: "sum_list inv \<noteq> 0" using sum_list_pos_real[OF ne pos] by simp
  have a: "map (cdiv (Some 1)) (map (map_option (max (1 / 1000000))) (map Some vs)) = map Some inv"
    by (simp add: inv_def cdiv_def floor_nonzero)
  have "rp_weights_of (map Some vs) = map (\<lambda>x. cdiv x (Some (sum_skipna (map Some inv)))) (map Some inv)"
    unfolding rp_weights_of_def Let_def a by (rule refl)
  also have "\<dots> = map Some (map (\<lambda>x. x / sum_list inv) inv)"
    by (rule normalise_Some[OF s])
  finally show ?thesis by (simp add: inv_def)
qed

lemma rp_weights_of_full: "vs \<noteq> [] \<Longrightarrow> full (rp_weights_of (map Some vs))"
proof -
  assume ne: "vs \<noteq> []"
  define inv where "inv = map (\<lambda>v. 1 / max (1 / 1000000) v) vs"
  have pos: "\<forall>r\<in>set inv. 0 < r" by (auto simp: inv_def floor_pos)
  have "inv \<noteq> []" using ne by (simp add: inv_def)
  then have s: "sum_list inv \<noteq> 0" using sum_list_pos_real[OF _ pos] by simp
  show ?thesis unfolding rp_weights_of_Some inv_def[symmetric] by (rule full_normalised[OF s])
qed

lemma rp_weights_of_blank: "blank vs \<Longrightarrow> blank (rp_weights_of vs)"
  by (auto simp: rp_weights_of_def Let_def blank_def list_all_iff cdiv_def split: option.splits)

subsection \<open>Momentum\<close>

lemma min_skipna_map_Some: "rs \<noteq> [] \<Longrightarrow> min_skipna (map Some rs) = Some (Min (set rs))"
  unfolding min_skipna_def present_map_Some
  by (cases rs) (simp_all add: Min.set_eq_fold del: set_simps)

lemma max_skipna_map_Some: "rs \<noteq> [] \<Longrightarrow> max_skipna (map Some rs) = Some (Max (set rs))"
  unfolding max_skipna_def present_map_Some
  by (cases rs) (simp_all add: Max.set_eq_fold del: set_simps)

lemma spread_pos: "rs \<noteq> [] \<Longrightarrow> 0 < Max (set rs) - Min (set rs) + 1 / (1000000::real)"
proof -
  assume "rs \<noteq> []"
  then have "Min (set rs) \<le> Max (set rs)" by simp
  then show ?thesis by simp
qed

lemma momentum_scores_of_Some:
  assumes "ms \<noteq> []"
  shows "momentum_scores_of (map Some ms) =
     map Some (map (\<lambda>x. (x - Min (set (map (\<lambda>m. m * 252) ms)))
                        / (Max (set (map (\<lambda>m. m * 252) ms)) - Min (set (map (\<lambda>m. m * 252) ms)) + 1 / 1000000))
                   (map (\<lambda>m. m * 252) ms))"
proof -
  define rs where "rs = map (\<lambda>m. m * 252) ms"
  have ne: "rs \<noteq> []" using assms by (simp add: rs_def)
  have a: "map (\<lambda>m. lift2 (*) m (Some 252)) (map Some ms) = map Some rs"
    by (simp add: rs_def lift2_def)
  have d: "Max (set rs) - Min (set rs) + 1 / 1000000 \<noteq> 0" using spread_pos[OF ne] by simp
  show ?thesis
    unfolding momentum_scores_of_def Let_def a min_skipna_map_Some[OF ne] max_skipna_map_Some[OF ne]
      rs_def[symmetric]
    using d by (simp add: lift2_def cdiv_def)
qed

lemma momentum_weights_of_cases:
  "blank (momentum_weights_of (map Some ms)) \<or> full (momentum_weights_of (map Some ms))"
proof (cases "ms = []")
  case True
  then show ?thesis by (simp add: momentum_weights_of_def momentum_scores_of_def blank_def)
next
  case False
  obtain ss where ss: "momentum_scores_of (map Some ms) = map Some ss"
    using momentum_scores_of_Some[OF False] by blast
  show ?thesis
  proof (cases "sum_list ss = 0")
    case True
    show ?thesis unfolding momentum_weights_of_def Let_def ss normalise_zero[OF True]
      by (simp add: blank_replicate)
  next
    case False
    show ?thesis unfolding momentum_weights_of_def Let_def ss normalise_Some[OF False]
      using full_normalised[OF False] by blast
  qed
qed

lemma momentum_weights_of_blank: "blank ms \<Longrightarrow> blank (momentum_weights_of ms)"
  by (auto simp: momentum_weights_of_def momentum_scores_of_def Let_def blank_def list_all_iff
      cdiv_def lift2_def split: option.splits)

subsection \<open>Blend\<close>

lemma blend_blank_left: "blank a \<Longrightarrow> blank (blend w a b)"
  by (auto simp: blend_def Let_def blank_def list_all_iff cdiv_def lift2_def
      split: option.splits dest: set_zip_leftD)

lemma blend_blank_right: "blank b \<Longrightarrow> blank (blend w a b)"
proof -
  assume "blank b"
  then have "\<forall>rm\<in>set (zip a b). snd rm = None"
    by (auto simp: blank_def list_all_iff dest: set_zip_rightD)
  then show ?thesis
    by (auto simp: blend_def Let_def blank_def list_all_iff cdiv_def lift2_def split: option.splits)
qed

lemma sum_list_mix:
  "length ra = length rb \<Longrightarrow>
   sum_list (map (\<lambda>rm. (1 - w) * fst rm + w * snd rm) (zip ra rb))
     = (1 - w) * sum_list ra + w * sum_list (rb::real list)"
  by (induction ra rb rule: list_induct2) (simp_all add: algebra_simps)

lemma blend_Some:
  assumes "length ra = length rb" "sum_list ra = 1" "sum_list rb = 1"
  shows "blend w (map Some ra) (map Some rb)
           = map Some (map (\<lambda>rm. (1 - w) * fst rm + w * snd rm) (zip ra rb))"
proof -
  define mix where "mix = map (\<lambda>rm. (1 - w) * fst rm + w * snd rm) (zip ra rb)"
  have s: "sum_list mix = 1" using assms by (simp add: mix_def sum_list_mix)
  have a: "map (\<lambda>rm. lift2 (+) (lift2 (*) (Some (1 - w)) (fst rm)) (lift2 (*) (Some w) (snd rm)))
             (zip (map Some ra) (map Some rb)) = map Some mix"
    by (simp add: mix_def lift2_def zip_map_map split_def)
  have "blend w (map Some ra) (map Some rb) = map Some (map (\<lambda>x. x / sum_list mix) mix)"
    unfolding blend_def Let_def a using s by (simp add: sum_skipna_map_Some cdiv_def)
  then show ?thesis using s by (simp add: mix_def)
qed

lemma full_sum: "full (map Some rs) \<Longrightarrow> sum_list rs = 1"
  by (simp add: full_def sum_skipna_map_Some)

lemma full_Some: "full ws \<Longrightarrow> ws = map Some (map the ws)"
  by (rule defined_map_Some) (simp add: full_def)

lemma blend_full:
  assumes "full a" "full b" "length a = length b"
  shows "full (blend w a b)"
proof -
  define ra where "ra = map the a"
  define rb where "rb = map the b"
  have a: "a = map Some ra" and b: "b = map Some rb"
    using assms full_Some by (simp_all add: ra_def rb_def)
  have l: "length ra = length rb" using assms by (simp add: ra_def rb_def)
  have sa: "sum_list ra = 1" and sb: "sum_list rb = 1"
    using assms(1,2) full_sum unfolding a b by simp_all
  show ?thesis unfolding a b blend_Some[OF l sa sb]
    by (simp add: full_def sum_skipna_map_Some del: map_map)
       (simp add: sum_list_mix[OF l] sa sb list_all_iff)
qed

subsection \<open>Every computed row is blank or full\<close>

lemma window_column_length:
  "c \<in> set (window_columns pf a b) \<Longrightarrow> length c = length (iloc a b (vals (returns pf)))"
  by (auto simp: window_columns_def Let_def)

lemma blank_or_Some_map:
  assumes "\<forall>c\<in>set cols. length c = l"
  shows "blank (map (\<lambda>c. lift2 (*) (std_col c) (Some k)) cols)
         \<or> (\<exists>vs. map (\<lambda>c. lift2 (*) (std_col c) (Some k)) cols = map Some vs)"
proof (cases "l < 2")
  case True
  then show ?thesis using assms by (simp add: blank_def list_all_iff std_col_def lift2_def)
next
  case False
  have "map (\<lambda>c. lift2 (*) (std_col c) (Some k)) cols
        = map Some (map (\<lambda>c. the (std_col c) * k) cols)"
    using assms False by (auto simp: std_col_def lift2_def Let_def)
  then show ?thesis by blast
qed

lemma volatilities_cases:
  "blank (volatilities_at pf i) \<or> (\<exists>vs. volatilities_at pf i = map Some vs)"
  unfolding volatilities_at_def
  by (rule blank_or_Some_map[where l = "length (iloc (i - lookback pf) i (vals (returns pf)))"])
     (simp add: window_column_length)

lemma means_cases:
  "blank (means_at pf i) \<or> (\<exists>ms. means_at pf i = map Some ms)"
proof -
  define l where "l = length (iloc (i - momentum_window pf) i (vals (returns pf)))"
  have len: "\<forall>c\<in>set (window_columns pf (i - momentum_window pf) i). length c = l"
    by (simp add: window_column_length l_def)
  show ?thesis
  proof (cases "l = 0")
    case True
    then show ?thesis using len by (simp add: means_at_def blank_def list_all_iff mean_col_def)
  next
    case False
    have "means_at pf i = map Some (map (\<lambda>c. the (mean_col c)) (window_columns pf (i - momentum_window pf) i))"
      using len False by (auto simp: means_at_def mean_col_def)
    then show ?thesis by blast
  qed
qed

lemma length_volatilities_at: "length (volatilities_at pf i) = length (assets_of pf)"
  by (simp add: volatilities_at_def length_window_columns)

lemma length_means_at: "length (means_at pf i) = length (assets_of pf)"
  by (simp add: means_at_def length_window_columns)






subsection \<open>Forward fill of rows that are blank or full\<close>

lemma fill_row_defined:
  "length a = length b \<Longrightarrow> list_all (\<lambda>c. c \<noteq> None) b \<Longrightarrow> fill_row a b = b"
  by (induction a b rule: list_induct2) (auto simp: fill_row_def)





lemma ffill_from_nth:
  assumes "length prev = m" "\<forall>ws\<in>set wss. length ws = m" "i < length wss"
    "list_all (\<lambda>c. c \<noteq> None) (wss ! i)"
  shows "ffill_from prev wss ! i = wss ! i"
  using assms
proof (induction wss arbitrary: prev i)
  case Nil
  then show ?case by simp
next
  case (Cons ws wss)
  have l: "length prev = length ws" using Cons.prems by simp
  show ?case
  proof (cases i)
    case 0
    then show ?thesis using Cons.prems fill_row_defined[OF l] by simp
  next
    case (Suc k)
    have "length (fill_row prev ws) = m" using Cons.prems by (simp add: length_fill_row)
    from Cons.IH[OF this, of k] Cons.prems Suc show ?thesis by simp
  qed
qed

lemma ffill_nth:
  assumes "\<forall>ws\<in>set wss. length ws = m" "i < length wss" "list_all (\<lambda>c. c \<noteq> None) (wss ! i)"
  shows "ffill wss ! i = wss ! i"
proof (cases wss)
  case Nil
  then show ?thesis using assms by simp
next
  case (Cons ws rest)
  show ?thesis
  proof (cases i)
    case 0
    then show ?thesis using Cons by (simp add: ffill_def)
  next
    case (Suc k)
    then show ?thesis using Cons assms ffill_from_nth[of ws m rest k] by (simp add: ffill_def)
  qed
qed

lemma length_ffill_from: "length (ffill_from prev wss) = length wss"
  by (induction wss arbitrary: prev) simp_all

lemma length_ffill: "length (ffill wss) = length wss"
  by (cases wss) (simp_all add: ffill_def length_ffill_from)

subsection \<open>The finished table\<close>

lemma weight_table_nz:
  "weight_table pf =
     map (\<lambda>ws. map nz (place (weight_columns pf) (exclude pf) ws))
         (ffill (map (row_weights pf) [0..<length (vals (price pf))]))"
  unfolding weight_table_rows nz_def ..

lemma asset_columns_count:
  "length (filter (\<lambda>c. c \<noteq> exclude pf) (weight_columns pf)) = length (assets_of pf)"
  by (simp add: weight_columns_def assets_of_def)








lemma calculate_weights_Inr:
  assumes "calculate_weights pf = Inr pf'" "portfolio_weights pf' = Some W"
  shows "0 < length (assets_of pf)" "columns W = weight_columns pf" "vals W = weight_table pf"
    "index W = index (price pf)"
  using assms by (auto simp: calculate_weights_def split: if_splits)



lemma table_row_nth:
  assumes i: "i < length (vals (price pf))" and d: "list_all (\<lambda>c. c \<noteq> None) (row_weights pf i)"
  shows "weight_table pf ! i = map nz (place (weight_columns pf) (exclude pf) (row_weights pf i))"
proof -
  define wss where "wss = map (row_weights pf) [0..<length (vals (price pf))]"
  have len: "\<forall>ws\<in>set wss. length ws = length (assets_of pf)"
    by (simp add: wss_def length_row_weights)
  have i': "i < length wss" using i by (simp add: wss_def)
  have d': "list_all (\<lambda>c. c \<noteq> None) (wss ! i)" using d i by (simp add: wss_def)
  have "ffill wss ! i = wss ! i" by (rule ffill_nth[OF len i' d'])
  then show ?thesis unfolding weight_table_nz wss_def[symmetric] using i' i
    by (simp add: length_ffill wss_def)
qed

lemma length_weight_table: "length (weight_table pf) = length (vals (price pf))"
  by (simp add: weight_table_nz length_ffill)

lemma map_nz_Some: "map nz (map Some rs) = rs"
  by (induction rs) (simp_all add: nz_def)

lemma map_Some_nz: "list_all (\<lambda>c. c \<noteq> None) ws \<Longrightarrow> map Some (map nz ws) = ws"
  by (induction ws) (auto simp: nz_def)

lemma defined_not_blank: "ws \<noteq> [] \<Longrightarrow> list_all (\<lambda>c. c \<noteq> None) ws \<Longrightarrow> \<not> blank ws"
  by (cases ws) (auto simp: blank_def)

lemma rp_defined_full:
  assumes "0 < length (assets_of pf)" "list_all (\<lambda>c. c \<noteq> None) (rp_weights_of (volatilities_at pf i))"
  shows "full (rp_weights_of (volatilities_at pf i))"
proof -
  have ne: "rp_weights_of (volatilities_at pf i) \<noteq> []"
    using assms(1) length_volatilities_at[of pf i] length_rp_weights_of[of "volatilities_at pf i"] by auto
  from volatilities_cases[of pf i] show ?thesis
  proof
    assume "blank (volatilities_at pf i)"
    then have "blank (rp_weights_of (volatilities_at pf i))" by (rule rp_weights_of_blank)
    then show ?thesis using defined_not_blank[OF ne assms(2)] by simp
  next
    assume "\<exists>vs. volatilities_at pf i = map Some vs"
    then obtain vs where vs: "volatilities_at pf i = map Some vs" by blast
    have "vs \<noteq> []" using assms(1) length_volatilities_at[of pf i] vs by auto
    then show ?thesis unfolding vs by (rule rp_weights_of_full)
  qed
qed

lemma momentum_defined_full:
  assumes "0 < length (assets_of pf)" "list_all (\<lambda>c. c \<noteq> None) (momentum_weights_of (means_at pf i))"
  shows "full (momentum_weights_of (means_at pf i))"
proof -
  have ne: "momentum_weights_of (means_at pf i) \<noteq> []"
    using assms(1) length_means_at[of pf i] length_momentum_weights_of[of "means_at pf i"] by auto
  note nb = defined_not_blank[OF ne assms(2)]
  from means_cases[of pf i] show ?thesis
  proof
    assume "blank (means_at pf i)"
    then have "blank (momentum_weights_of (means_at pf i))" by (rule momentum_weights_of_blank)
    then show ?thesis using nb by simp
  next
    assume "\<exists>ms. means_at pf i = map Some ms"
    then obtain ms where ms: "means_at pf i = map Some ms" by blast
    show ?thesis using momentum_weights_of_cases[of ms] nb unfolding ms by blast
  qed
qed

lemma mix_zero: "length ra = length rb \<Longrightarrow> map (\<lambda>rm. (1 - 0) * fst rm + 0 * snd rm) (zip ra rb) = (ra::real list)"
  by (induction ra rb rule: list_induct2) simp_all

lemma mix_one: "length ra = length rb \<Longrightarrow> map (\<lambda>rm. (1 - 1) * fst rm + 1 * snd rm) (zip ra rb) = (rb::real list)"
  by (induction ra rb rule: list_induct2) simp_all

lemma blend_pure:
  assumes "full a" "full b" "length a = length b"
  shows "blend 0 a b = a" "blend 1 a b = b"
proof -
  define ra where "ra = map the a"
  define rb where "rb = map the b"
  have a: "a = map Some ra" and b: "b = map Some rb"
    using assms full_Some by (simp_all add: ra_def rb_def)
  have l: "length ra = length rb" using assms by (simp add: ra_def rb_def)
  have sa: "sum_list ra = 1" and sb: "sum_list rb = 1"
    using assms(1,2) full_sum unfolding a b by simp_all
  show "blend 0 a b = a" unfolding a b blend_Some[OF l sa sb] mix_zero[OF l] ..
  show "blend 1 a b = b" unfolding a b blend_Some[OF l sa sb] mix_one[OF l] ..
qed

subsection \<open>Rows that stay NaN, and the table with one jump\<close>

lemma steady_weights_blank_rp:
  "blank (volatilities_at pf i) \<Longrightarrow> steady_weights pf i = replicate (length (assets_of pf)) None"
proof -
  assume "blank (volatilities_at pf i)"
  then have "blank (steady_weights pf i)"
    by (simp add: steady_weights_def blend_blank_left rp_weights_of_blank)
  from blank_eq_replicate[OF this] show ?thesis by (simp add: length_steady_weights)
qed

lemma steady_weights_blank_momentum:
  "blank (momentum_weights_of (means_at pf i)) \<Longrightarrow> steady_weights pf i = replicate (length (assets_of pf)) None"
proof -
  assume "blank (momentum_weights_of (means_at pf i))"
  then have "blank (steady_weights pf i)"
    by (simp add: steady_weights_def blend_blank_right)
  from blank_eq_replicate[OF this] show ?thesis by (simp add: length_steady_weights)
qed

lemma jump_returns: "vals (returns jump_pf) = [[0,0,0],[0,1,0],[0,0,0]]"
  by code_simp

lemma jump_assets: "assets_of jump_pf = [''XLB'', ''XLC'']"
  by code_simp

lemma jump_cols: "weight_columns jump_pf = [''SPY'', ''XLB'', ''XLC'']"
  by code_simp

lemma jump_len: "length (vals (price jump_pf)) = 3"
  by code_simp

lemma jump_fields: "lookback jump_pf = 1" "momentum_window jump_pf = 1"
  "exclude jump_pf = ''SPY''" "momentum_weight jump_pf = 1"
  by (simp_all add: init_def jump_pf_def)

lemma jump_momentum: "momentum_weights_of (means_at jump_pf 2) = [Some 1, Some 0]"
  by code_simp

lemma jump_win: "window_columns jump_pf 0 (Suc 0) = [[0],[0]]"
  "window_columns jump_pf (Suc 0) 2 = [[1],[0]]"
  by code_simp+

lemma jump_rows: "map (row_weights jump_pf) [0..<3] = [[Some (1/2), Some (1/2)], [None, None], [None, None]]"
proof -
  have v1: "blank (volatilities_at jump_pf (Suc 0))"
    by (simp add: volatilities_at_def jump_fields jump_win blank_def std_col_def lift2_def)
  have v2: "blank (volatilities_at jump_pf 2)"
    by (simp add: volatilities_at_def jump_fields jump_win blank_def std_col_def lift2_def)
  have "[0..<3] = [0, 1, 2]" by (simp add: upt_rec)
  then show ?thesis
    by (simp add: row_weights_def jump_fields jump_assets steady_weights_blank_rp[OF v1]
        steady_weights_blank_rp[OF v2])
qed

lemma jump_table: "weight_table jump_pf = [[0, 1/2, 1/2], [0, 1/2, 1/2], [0, 1/2, 1/2]]"
  unfolding weight_table_nz jump_len jump_rows jump_cols jump_fields
  by (simp add: ffill_def fill_row_def nz_def)

subsection \<open>Monotonicity of the two components\<close>











subsection \<open>Portfolio returns\<close>

lemma weighted_sum_mask:
  "sum_list (map (\<lambda>xy. fst xy * snd xy) (zip (select_assets cols ex a) (select_assets cols ex b)))
   = sum_list (map (\<lambda>cxy. if fst cxy = ex then 0 else fst (snd cxy) * snd (snd cxy))
                   (zip cols (zip a (b::real list))))"
proof (induction cols arbitrary: a b)
  case Nil
  then show ?case by (simp add: select_assets_Nil)
next
  case (Cons c cols)
  show ?case
  proof (cases a)
    case Nil
    then show ?thesis by (simp add: select_assets_Nil)
  next
    case a: (Cons x xs)
    show ?thesis
    proof (cases b)
      case Nil
      then show ?thesis by (simp add: select_assets_Nil)
    next
      case b: (Cons y ys)
      show ?thesis using Cons.IH[of xs ys] by (simp add: a b select_assets_Cons)
    qed
  qed
qed

lemma select_assets_extra: "select_assets (cols @ [ex]) ex r = select_assets cols ex r"
proof (induction cols arbitrary: r)
  case Nil
  then show ?case by (cases r) (simp_all add: select_assets_def)
next
  case (Cons c cols)
  then show ?case by (cases r) (simp_all add: select_assets_Nil select_assets_Cons)
qed

lemma select_assets_weight_columns:
  "select_assets (weight_columns pf) (exclude pf) r = select_assets (columns (price pf)) (exclude pf) r"
  by (simp add: weight_columns_def select_assets_extra)

subsection \<open>The other example portfolios\<close>

lemma calculate_weights_ok:
  "0 < length (assets_of pf) \<Longrightarrow>
   calculate_weights pf = Inr (pf\<lparr>portfolio_weights :=
      Some \<lparr>columns = weight_columns pf, index = index (price pf), vals = weight_table pf\<rparr>\<rparr>)"
  by (simp add: calculate_weights_def)

lemma trend_fields:
  "lookback (trend_pf w) = 2" "momentum_window (trend_pf w) = 1" "exclude (trend_pf w) = ''SPY''"
  "momentum_weight (trend_pf w) = w" "portfolio_weights (trend_pf w) = None"
  by (simp_all add: trend_pf_def init_def)

lemma trend_assets: "assets_of (trend_pf w) = [''XLB'', ''XLC'']"
  by code_simp

lemma trend_cols: "weight_columns (trend_pf w) = [''SPY'', ''XLB'', ''XLC'']"
  by code_simp

lemma trend_len: "length (vals (price (trend_pf w))) = 4"
  by code_simp

lemma trend_win: "window_columns (trend_pf w) (Suc 0) 3 = [[1 / 10, 1 / 10], [1 / 5, 1 / 5]]"
  by code_simp

lemma trend_momentum: "momentum_weights_of (means_at (trend_pf w) 3) = [Some 0, Some 1]"
  by code_simp

lemma trend_vols: "volatilities_at (trend_pf w) 3 = [Some 0, Some 0]"
  by (simp add: volatilities_at_def trend_fields trend_win std_col_def lift2_def)

lemma trend_rp: "rp_weights_of (volatilities_at (trend_pf w) 3) = [Some (1 / 2), Some (1 / 2)]"
  by (simp add: trend_vols rp_weights_of_def cdiv_def sum_skipna_def present_def)









lemma jump_index: "index (price jump_pf) = [0, 1, 2]" "index (returns jump_pf) = [0, 1, 2]"
  "columns (returns jump_pf) = [''SPY'', ''XLB'', ''XLC'']" "columns (price jump_pf) = [''SPY'', ''XLB'', ''XLC'']"
  by code_simp+

lemma length_table_row: "r \<in> set (weight_table pf) \<Longrightarrow> length r = length (weight_columns pf)"
  by (auto simp: weight_table_nz length_place)

lemma three_cells: "length r = 3 \<Longrightarrow> \<exists>a b c. r = [a, b, c]"
  by (cases r; cases "tl r"; cases "tl (tl r)") auto

subsection \<open>The portfolio with equal momentum\<close>

lemma tie_fields:
  "lookback tie_pf = 3" "momentum_window tie_pf = 2" "exclude tie_pf = ''SPY''"
  by (simp_all add: tie_pf_def init_def)

lemma tie_assets: "assets_of tie_pf = [''XLB'', ''XLC'']"
  by code_simp

lemma tie_cols: "weight_columns tie_pf = [''SPY'', ''XLB'', ''XLC'']"
  by code_simp

lemma tie_len: "length (vals (price tie_pf)) = 4"
  by code_simp

lemma tie_returns: "vals (returns tie_pf) = [[0, 0, 0], [0, 1, 1 / 4], [0, - 1 / 2, 1 / 4], [0, 0, 0]]"
  by code_simp

lemma tie_means: "means_at tie_pf 3 = [Some (1 / 4), Some (1 / 4)]"
  by code_simp

lemma tie_scores: "momentum_scores_of (means_at tie_pf 3) = [Some 0, Some 0]"
  by code_simp

lemma tie_momentum: "momentum_weights_of (means_at tie_pf 3) = [None, None]"
  by code_simp

lemma tie_win: "window_columns tie_pf 0 3 = [[0, 1, - 1 / 2], [0, 1 / 4, 1 / 4]]"
  by code_simp

lemma tie_vols:
  "volatilities_at tie_pf 3 = [Some (sqrt (7 / 12) * sqrt 252), Some (sqrt (1 / 48) * sqrt 252)]"
  by (simp add: volatilities_at_def tie_fields tie_win std_col_def lift2_def power2_eq_square)

lemma tie_rp:
  "list_all (\<lambda>c. c \<noteq> None) (rp_weights_of (volatilities_at tie_pf 3))"
  "rp_weights_of (volatilities_at tie_pf 3) \<noteq> [Some (1 / 2), Some (1 / 2)]"
proof -
  define va where "va = sqrt (7 / 12) * sqrt 252"
  define vb where "vb = sqrt (1 / 48) * sqrt 252"
  have v: "volatilities_at tie_pf 3 = map Some [va, vb]" by (simp add: tie_vols va_def vb_def)
  have a1: "1 \<le> va" unfolding va_def real_sqrt_mult[symmetric]
    by (rule real_sqrt_ge_one) simp
  have "sqrt (1 / 48) < sqrt (7 / 12)" by (simp add: real_sqrt_less_iff del: real_sqrt_divide)
  then have lt: "vb < va" unfolding va_def vb_def by (simp add: mult_less_cancel_right)
  have ma: "max (1 / 1000000) va = va" using a1 by simp
  have mb: "max (1 / 1000000) vb < va" using a1 lt by simp
  have pos: "0 < max (1 / 1000000) vb" by (rule floor_pos)
  define fa where "fa = 1 / va"
  define fb where "fb = 1 / max (1 / 1000000) vb"
  have flt: "fa < fb" unfolding fa_def fb_def using mb pos by (simp add: frac_less2)
  have fpos: "0 < fa" unfolding fa_def using a1 by simp
  have rp: "rp_weights_of (volatilities_at tie_pf 3) = [Some (fa / (fa + fb)), Some (fb / (fa + fb))]"
    unfolding v rp_weights_of_Some by (simp add: ma fa_def fb_def)
  show "list_all (\<lambda>c. c \<noteq> None) (rp_weights_of (volatilities_at tie_pf 3))"
    unfolding rp by (simp del: not_None_eq)
  show "rp_weights_of (volatilities_at tie_pf 3) \<noteq> [Some (1 / 2), Some (1 / 2)]"
  proof
    assume "rp_weights_of (volatilities_at tie_pf 3) = [Some (1 / 2), Some (1 / 2)]"
    then have "fa / (fa + fb) = 1 / 2" unfolding rp by (simp only: list.inject option.inject)
    moreover have "0 < fa + fb" using fpos flt by simp
    ultimately have "2 * fa = fa + fb" by (simp add: field_simps)
    then show False using flt by simp
  qed
qed

lemma tie_steady: "steady_weights tie_pf 3 = [None, None]"
proof -
  have m: "blank (momentum_weights_of (means_at tie_pf 3))" by (simp add: tie_momentum blank_def)
  show ?thesis using steady_weights_blank_momentum[OF m] by (simp add: tie_assets)
qed

lemma tie_rows:
  "map (row_weights tie_pf) [0..<4]
     = [[Some (1 / 2), Some (1 / 2)], [Some (1 / 2), Some (1 / 2)], [Some (1 / 2), Some (1 / 2)], [None, None]]"
proof -
  have "[0..<4] = [0, 1, 2, 3]" by (simp add: upt_rec)
  then show ?thesis
    by (simp add: row_weights_def tie_fields tie_assets tie_steady)
qed

lemma tie_table:
  "weight_table tie_pf = [[0, 1 / 2, 1 / 2], [0, 1 / 2, 1 / 2], [0, 1 / 2, 1 / 2], [0, 1 / 2, 1 / 2]]"
  unfolding weight_table_nz tie_len tie_rows tie_cols tie_fields
  by (simp add: ffill_def fill_row_def nz_def)

subsection \<open>Exact arithmetic: pure components and monotonicity\<close>

lemma pure_components_exact:
  assumes "calculate_weights pf = Inr pf'" and "portfolio_weights pf' = Some W"
    and "max (lookback pf) (momentum_window pf) \<le> i" and "i < length (vals (price pf))"
    and "list_all (\<lambda>c. c \<noteq> None) (rp_weights_of (volatilities_at pf i))"
    and "list_all (\<lambda>c. c \<noteq> None) (momentum_weights_of (means_at pf i))"
  shows "(momentum_weight pf = 0 \<longrightarrow>
            map Some (select_assets (columns W) (exclude pf) (vals W ! i))
              = rp_weights_of (volatilities_at pf i))
       \<and> (momentum_weight pf = 1 \<longrightarrow>
            map Some (select_assets (columns W) (exclude pf) (vals W ! i))
              = momentum_weights_of (means_at pf i))"
proof -
  note c = calculate_weights_Inr[OF assms(1,2)]
  define rp where "rp = rp_weights_of (volatilities_at pf i)"
  define mw where "mw = momentum_weights_of (means_at pf i)"
  have frp: "full rp" unfolding rp_def by (rule rp_defined_full[OF c(1) assms(5)])
  have fmw: "full mw" unfolding mw_def by (rule momentum_defined_full[OF c(1) assms(6)])
  have l: "length rp = length mw"
    by (simp add: rp_def mw_def length_rp_weights_of length_momentum_weights_of
        length_volatilities_at length_means_at)
  have "\<not> i < max (lookback pf) (momentum_window pf)" using assms(3) by linarith
  then have rw: "row_weights pf i = blend (momentum_weight pf) rp mw"
    unfolding row_weights_def steady_weights_def rp_def mw_def by (simp only: if_False)
  have fr: "full (row_weights pf i)" unfolding rw by (rule blend_full[OF frp fmw l])
  then have d: "list_all (\<lambda>c. c \<noteq> None) (row_weights pf i)" by (simp add: full_def)
  have len: "length (row_weights pf i) = length (filter (\<lambda>c. c \<noteq> exclude pf) (weight_columns pf))"
    by (simp add: length_row_weights asset_columns_count)
  have "select_assets (columns W) (exclude pf) (vals W ! i) = map nz (row_weights pf i)"
    unfolding c(2) c(3) table_row_nth[OF assms(4) d] by (rule select_assets_map_place[OF len])
  then have "map Some (select_assets (columns W) (exclude pf) (vals W ! i)) = row_weights pf i"
    using map_Some_nz[OF d] by (simp del: map_map)
  then show ?thesis using blend_pure[OF frp fmw l] by (simp add: rw rp_def mw_def)
qed




lemma renormalise_full: "full ws \<Longrightarrow> renormalise ws = ws"
proof -
  assume f: "full ws"
  have ws: "ws = map Some (map the ws)" by (rule full_Some[OF f])
  have s: "sum_list (map the ws) = 1" using f full_sum[of "map the ws"] ws by simp
  have "renormalise (map Some (map the ws)) = map Some (map (\<lambda>x. x / sum_list (map the ws)) (map the ws))"
    unfolding renormalise_def by (rule normalise_Some) (simp add: s)
  then show ?thesis using ws s by simp
qed

subsection \<open>Rounding in doubles\<close>

lemma pure_risk_parity_rounding:
  "rp_weights_double [5764607523034235 / 36028797018963968, 3386706919782613 / 36028797018963968]
     = [6666745905083885 / 18014398509481984, 5673826302199051 / 9007199254740992]
   \<and> sum_double [6666745905083885 / 18014398509481984, 5673826302199051 / 9007199254740992]
     = 4503599627370497 / 4503599627370496
   \<and> renormalise_double [6666745905083885 / 18014398509481984, 5673826302199051 / 9007199254740992]
     = [1666686476270971 / 4503599627370496, 2836913151099525 / 4503599627370496]"
  by code_simp

subsection \<open>The stored portfolio column\<close>

lemma cells_of_replaced_column:
  "distinct cols \<Longrightarrow> c \<in> set cols \<Longrightarrow> length r = length cols \<Longrightarrow>
   map snd (filter (\<lambda>cv. fst cv = c)
      (zip cols (map (\<lambda>cv. if fst cv = c then x else snd cv) (zip cols r)))) = [x]"
proof (induction cols arbitrary: r)
  case Nil
  then show ?case by simp
next
  case (Cons d cols)
  obtain y ys where r: "r = y # ys" using Cons.prems(3) by (cases r) auto
  show ?case
  proof (cases "d = c")
    case True
    then have "c \<notin> set cols" using Cons.prems(1) by simp
    then have "filter (\<lambda>cv. fst cv = c)
        (zip cols (map (\<lambda>cv. if fst cv = c then x else snd cv) (zip cols ys))) = []"
      by (auto simp: filter_empty_conv dest: set_zip_leftD)
    then show ?thesis using True r by simp
  next
    case False
    then have "c \<in> set cols" using Cons.prems(2) by simp
    moreover have "distinct cols" "length ys = length cols" using Cons.prems r by simp_all
    ultimately show ?thesis using Cons.IH[of ys] False r by simp
  qed
qed

lemma cells_of_added_column:
  "c \<notin> set cols \<Longrightarrow> length r = length cols \<Longrightarrow>
   map snd (filter (\<lambda>cv. fst cv = c) (zip (cols @ [c]) (r @ [x]))) = [x]"
proof -
  assume a: "c \<notin> set cols" "length r = length cols"
  have "filter (\<lambda>cv. fst cv = c) (zip cols r) = []"
    using a(1) by (auto simp: filter_empty_conv dest: set_zip_leftD)
  then show ?thesis using a(2) by simp
qed

lemma loc_cells_set_column:
  assumes "distinct (columns f)" "i < length (vals f)" "length xs = length (vals f)"
    "length (vals f ! i) = length (columns f)"
  shows "loc_cells c (set_column c xs f) i = [xs ! i]"
proof (cases "c \<in> set (columns f)")
  case True
  have "vals (set_column c xs f) ! i
        = map (\<lambda>cv. if fst cv = c then xs ! i else snd cv) (zip (columns f) (vals f ! i))"
    using True assms(2,3) by (simp add: set_column_def)
  moreover have "columns (set_column c xs f) = columns f" using True by (simp add: set_column_def)
  ultimately show ?thesis
    unfolding loc_cells_def
    using cells_of_replaced_column[OF assms(1) True assms(4), of "xs ! i"] by simp
next
  case False
  have "vals (set_column c xs f) ! i = vals f ! i @ [xs ! i]"
    using False assms(2,3) by (simp add: set_column_def)
  moreover have "columns (set_column c xs f) = columns f @ [c]" using False by (simp add: set_column_def)
  ultimately show ?thesis
    unfolding loc_cells_def using cells_of_added_column[OF False assms(4), of "xs ! i"] by simp
qed

lemma length_portfolio_column:
  "length (portfolio_column pf w) = min (length (index (returns pf))) (length (vals (returns pf)))"
  by (simp add: portfolio_column_def)

lemma portfolio_cell:
  assumes "columns (returns pf) = columns (price pf)"
    and "length (index (returns pf)) = length (vals (returns pf))"
    and "i < length (vals (returns pf))"
    and "columns W = weight_columns pf"
  shows "portfolio_column pf W ! i =
         (case map_of (zip (index W) (vals W)) (index (returns pf) ! i) of
            None \<Rightarrow> 0
          | Some wr \<Rightarrow>
              sum_list (map (\<lambda>cxy. if fst cxy = exclude pf then 0 else fst (snd cxy) * snd (snd cxy))
                            (zip (columns (price pf)) (zip (vals (returns pf) ! i) wr))))"
proof -
  have i': "i < length (zip (index (returns pf)) (vals (returns pf)))" using assms(2,3) by simp
  show ?thesis
    unfolding portfolio_column_def nth_map[OF i']
    using assms(2,3)
    by (simp add: assms(1,4) select_assets_weight_columns weighted_sum_mask split: option.splits)
qed

section \<open>The weight table\<close>




text \<open>
  C2, at a price table on which the two funds have the same trailing 2-day mean return
  at date 3 (returns 1 and -1/2 for one fund, 1/4 and 1/4 for the other; all values are
  exact in binary64). The floor keeps the min-max denominator away from 0 and the scores
  are all 0, but then their sum is 0 and the division by the sum gives NaN for every
  momentum weight. The blended row is NaN although the risk-parity weights are numbers
  (and unequal), and the table repeats the equal weights of the date before.
\<close>

theorem equal_momentum_gives_nan:
  "vals (returns tie_pf) = [[0, 0, 0], [0, 1, 1 / 4], [0, - 1 / 2, 1 / 4], [0, 0, 0]]
   \<and> means_at tie_pf 3 = [Some (1 / 4), Some (1 / 4)]
   \<and> momentum_scores_of (means_at tie_pf 3) = [Some 0, Some 0]
   \<and> momentum_weights_of (means_at tie_pf 3) = [None, None]
   \<and> list_all (\<lambda>c. c \<noteq> None) (rp_weights_of (volatilities_at tie_pf 3))
   \<and> rp_weights_of (volatilities_at tie_pf 3) \<noteq> [Some (1 / 2), Some (1 / 2)]
   \<and> steady_weights tie_pf 3 = [None, None]
   \<and> weight_table tie_pf ! 3 = [0, 1 / 2, 1 / 2]"
  using tie_returns tie_means tie_scores tie_momentum tie_rp tie_steady tie_table by simp

text \<open>
  C3. For a date position below both the larger window length and the number of price
  rows, the finished table gives each of the \<open>N\<close> non-excluded assets the weight \<open>1 / N\<close>
  and the excluded column 0.
\<close>

theorem warm_up_equal_weights:
  assumes "calculate_weights pf = Inr pf'" and "portfolio_weights pf' = Some W"
    and "i < max (lookback pf) (momentum_window pf)"
    and "i < length (vals (price pf))"
  shows "select_assets (columns W) (exclude pf) (vals W ! i)
           = replicate (length (assets_of pf)) (1 / real (length (assets_of pf)))
         \<and> (\<forall>x\<in>set (excluded_cells (columns W) (exclude pf) (vals W ! i)). x = 0)"
proof -
  note c = calculate_weights_Inr[OF assms(1,2)]
  define ws where "ws = replicate (length (assets_of pf)) (Some (1 / real (length (assets_of pf))))"
  have rw: "row_weights pf i = ws" using assms(3) by (simp add: row_weights_def ws_def)
  have d: "list_all (\<lambda>c. c \<noteq> None) (row_weights pf i)" unfolding rw by (simp add: ws_def list_all_iff)
  have row: "vals W ! i = map nz (place (weight_columns pf) (exclude pf) ws)"
    unfolding c(3) table_row_nth[OF assms(4) d] rw ..
  have l: "length ws = length (filter (\<lambda>c. c \<noteq> exclude pf) (weight_columns pf))"
    by (simp add: ws_def asset_columns_count)
  have "select_assets (columns W) (exclude pf) (vals W ! i) = map nz ws"
    unfolding c(2) row by (rule select_assets_map_place[OF l])
  moreover have "map nz ws = replicate (length (assets_of pf)) (1 / real (length (assets_of pf)))"
    by (simp add: ws_def nz_def)
  moreover have "\<forall>x\<in>set (excluded_cells (columns W) (exclude pf) (vals W ! i)). x = 0"
    unfolding c(2) row using excluded_cells_map_place[of _ "weight_columns pf" "exclude pf" nz ws]
    by (auto simp: nz_def)
  ultimately show ?thesis by simp
qed

theorem warm_up_equal_weights_witness:
  "select_assets [''SPY'', ''XLB'', ''XLC''] ''SPY'' (weight_table (trend_pf (1 / 2)) ! 0) = [1 / 2, 1 / 2]
   \<and> excluded_cells [''SPY'', ''XLB'', ''XLC''] ''SPY'' (weight_table (trend_pf (1 / 2)) ! 0) = [0]"
proof -
  define W where "W = \<lparr>columns = weight_columns (trend_pf (1 / 2)), index = index (price (trend_pf (1 / 2))),
                       vals = weight_table (trend_pf (1 / 2))\<rparr>"
  have c: "calculate_weights (trend_pf (1 / 2)) = Inr ((trend_pf (1 / 2))\<lparr>portfolio_weights := Some W\<rparr>)"
    unfolding W_def by (rule calculate_weights_ok) (simp add: trend_assets)
  have w: "portfolio_weights ((trend_pf (1 / 2))\<lparr>portfolio_weights := Some W\<rparr>) = Some W" by simp
  have k: "0 < max (lookback (trend_pf (1 / 2))) (momentum_window (trend_pf (1 / 2)))"
    by (simp add: trend_fields)
  have n: "0 < length (vals (price (trend_pf (1 / 2))))" by (simp add: trend_len)
  have two: "replicate 2 (1 / 2 :: real) = [1 / 2, 1 / 2]" by (simp add: numeral_2_eq_2)
  have m: "weight_table (trend_pf (1 / 2)) ! 0 \<in> set (weight_table (trend_pf (1 / 2)))"
    by (simp add: length_weight_table trend_len)
  obtain a b c where abc: "weight_table (trend_pf (1 / 2)) ! 0 = [a, b, c]"
    using three_cells[of "weight_table (trend_pf (1 / 2)) ! 0"] length_table_row[OF m]
    by (auto simp: trend_cols)
  show ?thesis using warm_up_equal_weights[OF c w k n]
    by (simp add: W_def trend_cols trend_fields trend_assets two abc excluded_cells_def select_assets_def)
qed

text \<open>
  C4, as amended. At a steady-state date where the risk-parity weights and the momentum
  weights are all numbers, a blend weight of 0 makes the final weights the risk-parity
  weights divided once more by their own sum (line 82), and a blend weight of 1 makes
  them the momentum weights divided once more by their own sum. In exact arithmetic
  that sum is 1; in doubles it can differ from 1 in the last place, see
  \<open>pure_risk_parity_rounding\<close>.
\<close>

theorem pure_components_renormalised:
  assumes "calculate_weights pf = Inr pf'" and "portfolio_weights pf' = Some W"
    and "max (lookback pf) (momentum_window pf) \<le> i" and "i < length (vals (price pf))"
    and "list_all (\<lambda>c. c \<noteq> None) (rp_weights_of (volatilities_at pf i))"
    and "list_all (\<lambda>c. c \<noteq> None) (momentum_weights_of (means_at pf i))"
  shows "(momentum_weight pf = 0 \<longrightarrow>
            map Some (select_assets (columns W) (exclude pf) (vals W ! i))
              = renormalise (rp_weights_of (volatilities_at pf i)))
       \<and> (momentum_weight pf = 1 \<longrightarrow>
            map Some (select_assets (columns W) (exclude pf) (vals W ! i))
              = renormalise (momentum_weights_of (means_at pf i)))"
proof -
  note c = calculate_weights_Inr[OF assms(1,2)]
  have "full (rp_weights_of (volatilities_at pf i))" by (rule rp_defined_full[OF c(1) assms(5)])
  then have a: "renormalise (rp_weights_of (volatilities_at pf i)) = rp_weights_of (volatilities_at pf i)"
    by (rule renormalise_full)
  have "full (momentum_weights_of (means_at pf i))" by (rule momentum_defined_full[OF c(1) assms(6)])
  then have b: "renormalise (momentum_weights_of (means_at pf i)) = momentum_weights_of (means_at pf i)"
    by (rule renormalise_full)
  show ?thesis unfolding a b by (rule pure_components_exact[OF assms])
qed

theorem pure_components_renormalised_witness:
  "map Some (select_assets [''SPY'', ''XLB'', ''XLC''] ''SPY'' (weight_table (trend_pf 0) ! 3))
     = [Some (1 / 2), Some (1 / 2)]
   \<and> renormalise (rp_weights_of (volatilities_at (trend_pf 0) 3)) = [Some (1 / 2), Some (1 / 2)]
   \<and> map Some (select_assets [''SPY'', ''XLB'', ''XLC''] ''SPY'' (weight_table (trend_pf 1) ! 3))
     = [Some 0, Some 1]
   \<and> renormalise (momentum_weights_of (means_at (trend_pf 1) 3)) = [Some 0, Some 1]"
proof -
  have rn1: "renormalise [Some (1 / 2), Some (1 / 2)] = [Some (1 / 2), Some (1 / 2)]"
    by code_simp
  have rn2: "renormalise [Some 0, Some 1] = [Some 0, Some 1]"
    by code_simp
  have a: "map Some (select_assets [''SPY'', ''XLB'', ''XLC''] ''SPY'' (weight_table (trend_pf w) ! 3))
             = (if w = 0 then [Some (1 / 2), Some (1 / 2)] else [Some 0, Some 1])"
    if "w = 0 \<or> w = 1" for w
  proof -
    define W where "W = \<lparr>columns = weight_columns (trend_pf w), index = index (price (trend_pf w)),
                         vals = weight_table (trend_pf w)\<rparr>"
    have c: "calculate_weights (trend_pf w) = Inr ((trend_pf w)\<lparr>portfolio_weights := Some W\<rparr>)"
      unfolding W_def by (rule calculate_weights_ok) (simp add: trend_assets)
    have p: "portfolio_weights ((trend_pf w)\<lparr>portfolio_weights := Some W\<rparr>) = Some W" by simp
    have k: "max (lookback (trend_pf w)) (momentum_window (trend_pf w)) \<le> 3"
      by (simp add: trend_fields)
    have n: "3 < length (vals (price (trend_pf w)))" by (simp add: trend_len)
    have d1: "list_all (\<lambda>c. c \<noteq> None) (rp_weights_of (volatilities_at (trend_pf w) 3))"
      by (simp add: trend_rp del: not_None_eq)
    have d2: "list_all (\<lambda>c. c \<noteq> None) (momentum_weights_of (means_at (trend_pf w) 3))"
      by (simp add: trend_momentum del: not_None_eq)
    show ?thesis using pure_components_renormalised[OF c p k n d1 d2] that
      by (auto simp: W_def trend_cols trend_fields trend_rp trend_momentum rn1 rn2)
  qed
  show ?thesis using a[of 0] a[of 1] by (simp add: trend_rp trend_momentum rn1 rn2)
qed

text \<open>
  C4, as stated, fails for a lookback of 1: the standard deviation of a single return is
  NaN, so are the risk-parity weights and, even with a blend weight of 1, the blended
  row; the table then shows the weights of the date before (here the equal weights),
  not the momentum weights of the date.
\<close>

theorem pure_momentum_counterexample:
  "momentum_weight jump_pf = 1
   \<and> calculate_weights jump_pf
       = Inr (jump_pf\<lparr>portfolio_weights :=
            Some \<lparr>columns = [''SPY'', ''XLB'', ''XLC''], index = [0, 1, 2],
                  vals = [[0, 1 / 2, 1 / 2], [0, 1 / 2, 1 / 2], [0, 1 / 2, 1 / 2]]\<rparr>\<rparr>)
   \<and> momentum_weights_of (means_at jump_pf 2) = [Some 1, Some 0]"
proof -
  have "index (price jump_pf) = [0, 1, 2]" by code_simp
  then show ?thesis
    by (simp add: calculate_weights_def jump_assets jump_cols jump_table jump_momentum jump_fields)
qed







section \<open>The position check and the threshold checks\<close>



text \<open>
  C8. Each threshold check is a total function: it gives 15 exactly when the position
  check on the judge's weight table passes and its Sharpe-ratio comparison holds, it
  gives 0 otherwise; a score of 0 comes with one printed line, the position message or
  the failure message.
\<close>

theorem threshold_checks_score:
  "fst (check_sharp_ratio_greater_than_one rm df j) =
     (if fst (check_portfolio_position (fst (mp j))) \<and> gt (snd (rm df (mp j))) (Some 1)
      then 15 else 0)
   \<and> fst (check_sharp_ratio_greater_than_spy rm Bdf j) =
     (if fst (check_portfolio_position (fst (mp j)))
         \<and> gt (snd (rm Bdf (Bmp j))) (fst (rm Bdf (Bmp j)))
      then 15 else 0)
   \<and> (fst (check_sharp_ratio_greater_than_one rm df j) = 0 \<longrightarrow>
        snd (check_sharp_ratio_greater_than_one rm df j) \<in>
          {[''Portfolio Position Exceeds 1. No Leverage.''], [''Problem 4.1 Fail'']})
   \<and> (fst (check_sharp_ratio_greater_than_spy rm Bdf j) = 0 \<longrightarrow>
        snd (check_sharp_ratio_greater_than_spy rm Bdf j) \<in>
          {[''Portfolio Position Exceeds 1. No Leverage.''], [''Problem 4.2 Fail'']})"
  by (simp add: check_sharp_ratio_greater_than_one_def check_sharp_ratio_greater_than_spy_def
      check_portfolio_position_def Let_def)

theorem threshold_checks_score_witness:
  "fst (check_sharp_ratio_greater_than_one (\<lambda>d s. (Some 2, Some 1))
          \<lparr>columns = [''SPY''], index = [0], vals = [[Some 1]]\<rparr>
          \<lparr>mp = (\<lparr>columns = [''SPY'', ''XLB''], index = [0], vals = [[0, 1]]\<rparr>,
                 \<lparr>columns = [''SPY'', ''XLB''], index = [0], vals = [[0, 0]]\<rparr>),
            Bmp = (\<lparr>columns = [''SPY'', ''XLB''], index = [0], vals = [[0, 1]]\<rparr>,
                  \<lparr>columns = [''SPY'', ''XLB''], index = [0], vals = [[0, 0]]\<rparr>)\<rparr>) = 0
   \<and> snd (check_sharp_ratio_greater_than_one (\<lambda>d s. (Some 2, Some 1))
          \<lparr>columns = [''SPY''], index = [0], vals = [[Some 1]]\<rparr>
          \<lparr>mp = (\<lparr>columns = [''SPY'', ''XLB''], index = [0], vals = [[0, 1]]\<rparr>,
                 \<lparr>columns = [''SPY'', ''XLB''], index = [0], vals = [[0, 0]]\<rparr>),
            Bmp = (\<lparr>columns = [''SPY'', ''XLB''], index = [0], vals = [[0, 1]]\<rparr>,
                  \<lparr>columns = [''SPY'', ''XLB''], index = [0], vals = [[0, 0]]\<rparr>)\<rparr>)
       = [''Problem 4.1 Fail'']
   \<and> fst (check_sharp_ratio_greater_than_spy (\<lambda>d s. (Some 2, Some 1))
          \<lparr>columns = [''SPY''], index = [0], vals = [[Some 1]]\<rparr>
          \<lparr>mp = (\<lparr>columns = [''SPY'', ''XLB''], index = [0], vals = [[0, 1]]\<rparr>,
                 \<lparr>columns = [''SPY'', ''XLB''], index = [0], vals = [[0, 0]]\<rparr>),
            Bmp = (\<lparr>columns = [''SPY'', ''XLB''], index = [0], vals = [[0, 1]]\<rparr>,
                  \<lparr>columns = [''SPY'', ''XLB''], index = [0], vals = [[0, 0]]\<rparr>)\<rparr>) = 0
   \<and> snd (check_sharp_ratio_greater_than_spy (\<lambda>d s. (Some 2, Some 1))
          \<lparr>columns = [''SPY''], index = [0], vals = [[Some 1]]\<rparr>
          \<lparr>mp = (\<lparr>columns = [''SPY'', ''XLB''], index = [0], vals = [[0, 1]]\<rparr>,
                 \<lparr>columns = [''SPY'', ''XLB''], index = [0], vals = [[0, 0]]\<rparr>),
            Bmp = (\<lparr>columns = [''SPY'', ''XLB''], index = [0], vals = [[0, 1]]\<rparr>,
                  \<lparr>columns = [''SPY'', ''XLB''], index = [0], vals = [[0, 0]]\<rparr>)\<rparr>)
       = [''Problem 4.2 Fail'']"
  using threshold_checks_score
    [of "\<lambda>d s. (Some 2, Some 1)"
        "\<lparr>columns = [''SPY''], index = [0], vals = [[Some 1]]\<rparr>"
        "\<lparr>mp = (\<lparr>columns = [''SPY'', ''XLB''], index = [0], vals = [[0, 1]]\<rparr>,
              \<lparr>columns = [''SPY'', ''XLB''], index = [0], vals = [[0, 0]]\<rparr>),
          Bmp = (\<lparr>columns = [''SPY'', ''XLB''], index = [0], vals = [[0, 1]]\<rparr>,
                \<lparr>columns = [''SPY'', ''XLB''], index = [0], vals = [[0, 0]]\<rparr>)\<rparr>"
        "\<lparr>columns = [''SPY''], index = [0], vals = [[Some 1]]\<rparr>"]
  by (simp add: check_sharp_ratio_greater_than_one_def check_sharp_ratio_greater_than_spy_def
      check_portfolio_position_def gt_def Let_def)

section \<open>Returns\<close>

text \<open>
  C9, at a price table whose first row has a missing price. The stored prices lose that
  row, the returns are computed from the table as it was given and keep it: the two
  tables have different dates and different numbers of rows.
\<close>

theorem returns_shape_mismatch:
  "index (price gap_pf) = [1, 2]
   \<and> vals (price gap_pf) = [[1, 2], [1, 3]]
   \<and> index (returns gap_pf) = [0, 1, 2]
   \<and> vals (returns gap_pf) = [[0, 0], [0, 0], [0, 1 / 2]]"
  by code_simp

text \<open>
  C10. After \<^verbatim>\<open>calculate_portfolio_returns\<close>, on an object whose weights are absent or are
  those that \<^verbatim>\<open>calculate_weights\<close> stores, the stored returns frame keeps its dates and
  has, at every date, exactly one cell in the column \<^verbatim>\<open>Portfolio\<close>: the sum, over the
  columns, of return times weight of that date, where the excluded column counts 0. A
  date without a row in the weight table gets 0.
\<close>

theorem portfolio_column_stored:
  assumes "calculate_portfolio_returns pf = Inr pf'"
    and "portfolio_returns pf' = Some R"
    and "portfolio_weights pf = None \<or> calculate_weights pf = Inr pf"
    and "columns (returns pf) = columns (price pf)"
    and "distinct (columns (returns pf))"
    and "length (index (returns pf)) = length (vals (returns pf))"
    and "\<forall>r\<in>set (vals (returns pf)). length r = length (columns (returns pf))"
    and "i < length (vals (returns pf))"
  shows "\<exists>W. portfolio_weights pf' = Some W
     \<and> index R = index (returns pf)
     \<and> loc_cells ''Portfolio'' R i =
         [case map_of (zip (index W) (vals W)) (index (returns pf) ! i) of
            None \<Rightarrow> 0
          | Some wr \<Rightarrow>
              sum_list (map (\<lambda>cxy. if fst cxy = exclude pf then 0 else fst (snd cxy) * snd (snd cxy))
                            (zip (columns (price pf)) (zip (vals (returns pf) ! i) wr)))]"
proof -
  define W where "W = \<lparr>columns = weight_columns pf, index = index (price pf), vals = weight_table pf\<rparr>"
  define pf1 where "pf1 = pf\<lparr>portfolio_weights := Some W\<rparr>"
  have N: "length (assets_of pf) \<noteq> 0"
    using assms(1,3)
    by (auto simp: calculate_portfolio_returns_def calculate_weights_def split: if_splits)
  then have cw: "calculate_weights pf = Inr pf1"
    by (simp add: calculate_weights_def W_def pf1_def)
  have step: "(case portfolio_weights pf of None \<Rightarrow> calculate_weights pf | Some w \<Rightarrow> Inr pf) = Inr pf1"
  proof (cases "portfolio_weights pf")
    case None
    then show ?thesis by (simp add: cw)
  next
    case (Some w)
    then have "calculate_weights pf = Inr pf" using assms(3) by simp
    then have "pf1 = pf" using cw by simp
    then show ?thesis using Some by simp
  qed
  have pw: "portfolio_weights pf1 = Some W" by (simp add: pf1_def)
  have pf': "pf' = pf1\<lparr>portfolio_returns :=
       Some (set_column ''Portfolio'' (portfolio_column pf1 W) (returns pf1))\<rparr>"
    using assms(1) unfolding calculate_portfolio_returns_def step by (simp add: pw)
  have pc: "portfolio_column pf1 W = portfolio_column pf W"
    by (simp add: portfolio_column_def pf1_def cong: option.case_cong)
  have R: "R = set_column ''Portfolio'' (portfolio_column pf W) (returns pf)"
    using assms(2) pf' pc by (simp add: pf1_def)
  have len: "length (portfolio_column pf W) = length (vals (returns pf))"
    by (simp add: length_portfolio_column assms(6))
  have row: "length (vals (returns pf) ! i) = length (columns (returns pf))"
    using assms(7,8) by simp
  have cell: "loc_cells ''Portfolio'' R i = [portfolio_column pf W ! i]"
    unfolding R by (rule loc_cells_set_column[OF assms(5) assms(8) len row])
  have idx: "index R = index (returns pf)" unfolding R by (simp add: set_column_def)
  have "portfolio_weights pf' = Some W" using pf' pw by simp
  then show ?thesis
    using idx cell portfolio_cell[OF assms(4) assms(6) assms(8), of W] by (simp add: W_def)
qed

theorem portfolio_column_stored_witness:
  "calculate_portfolio_returns jump_pf
     = Inr (jump_pf\<lparr>portfolio_weights :=
               Some \<lparr>columns = [''SPY'', ''XLB'', ''XLC''], index = [0, 1, 2],
                     vals = [[0, 1 / 2, 1 / 2], [0, 1 / 2, 1 / 2], [0, 1 / 2, 1 / 2]]\<rparr>,
             portfolio_returns :=
               Some \<lparr>columns = [''SPY'', ''XLB'', ''XLC'', ''Portfolio''], index = [0, 1, 2],
                     vals = [[0, 0, 0, 0], [0, 1, 0, 1 / 2], [0, 0, 0, 0]]\<rparr>\<rparr>)
   \<and> loc_cells ''Portfolio''
        \<lparr>columns = [''SPY'', ''XLB'', ''XLC'', ''Portfolio''], index = [0, 1, 2],
         vals = [[0, 0, 0, 0], [0, 1, 0, 1 / 2 :: real], [0, 0, 0, 0]]\<rparr> 1 = [1 / 2]"
proof -
  define W :: "real frame" where "W = \<lparr>columns = [''SPY'', ''XLB'', ''XLC''], index = [0, 1, 2],
       vals = [[0, 1 / 2, 1 / 2], [0, 1 / 2, 1 / 2], [0, 1 / 2, 1 / 2]]\<rparr>"
  define R :: "real frame" where "R = \<lparr>columns = [''SPY'', ''XLB'', ''XLC'', ''Portfolio''], index = [0, 1, 2],
       vals = [[0, 0, 0, 0], [0, 1, 0, 1 / 2], [0, 0, 0, 0]]\<rparr>"
  have n: "portfolio_weights jump_pf = None" by (simp add: jump_pf_def init_def)
  have cw: "calculate_weights jump_pf = Inr (jump_pf\<lparr>portfolio_weights := Some W\<rparr>)"
    by (simp add: calculate_weights_def jump_assets jump_cols jump_table jump_index W_def)
  have col: "portfolio_column (jump_pf\<lparr>portfolio_weights := Some W\<rparr>) W = [0, 1 / 2, 0]"
    by (simp add: portfolio_column_def W_def jump_index jump_returns jump_fields select_assets_def)
  have rf: "returns jump_pf = \<lparr>columns = [''SPY'', ''XLB'', ''XLC''], index = [0, 1, 2],
       vals = [[0, 0, 0], [0, 1, 0], [0, 0, 0]]\<rparr>"
    using jump_index jump_returns by (cases "returns jump_pf") simp
  have c: "calculate_portfolio_returns jump_pf
            = Inr (jump_pf\<lparr>portfolio_weights := Some W, portfolio_returns := Some R\<rparr>)"
    by (simp add: calculate_portfolio_returns_def n cw col rf set_column_def R_def)
  have p: "portfolio_returns (jump_pf\<lparr>portfolio_weights := Some W, portfolio_returns := Some R\<rparr>) = Some R"
    by simp
  have h4: "columns (returns jump_pf) = columns (price jump_pf)" by (simp add: jump_index)
  have h5: "distinct (columns (returns jump_pf))" by (simp add: jump_index)
  have h6: "length (index (returns jump_pf)) = length (vals (returns jump_pf))"
    by (simp add: jump_index jump_returns)
  have h7: "\<forall>r\<in>set (vals (returns jump_pf)). length r = length (columns (returns jump_pf))"
    by (simp add: jump_index jump_returns)
  have h8: "1 < length (vals (returns jump_pf))" by (simp add: jump_returns)
  from portfolio_column_stored[OF c p _ h4 h5 h6 h7 h8] n
  have "loc_cells ''Portfolio'' R 1 =
         [case map_of (zip (index W) (vals W)) (index (returns jump_pf) ! 1) of
            None \<Rightarrow> 0
          | Some wr \<Rightarrow>
              sum_list (map (\<lambda>cxy. if fst cxy = exclude jump_pf then 0 else fst (snd cxy) * snd (snd cxy))
                            (zip (columns (price jump_pf)) (zip (vals (returns jump_pf) ! 1) wr)))]"
    by simp
  then have "loc_cells ''Portfolio'' R 1 = [1 / 2]"
    by (simp add: W_def jump_index jump_returns jump_fields)
  then show ?thesis using c by (simp add: W_def R_def)
qed

end
